theory Spec2Isabelle
  imports Complex_Main
begin

section \<open>Grey Wolf Optimizer: the class \<open>GWO\<close> of main.py\<close>

text \<open>
  Coordinates are numpy floats; they are modelled as reals (rounding and overflow are
  outside the model). A score is a Python float that starts as \<open>float("inf")\<close> and
  is overwritten by whatever the objective returns, so scores keep the special values:
  the infinities and NaN, with the comparisons of IEEE 754 (every comparison with NaN
  is false).
\<close>

datatype pyfloat = Fin real | PInf | NInf | NaN

fun flt :: "pyfloat \<Rightarrow> pyfloat \<Rightarrow> bool" where
  "flt NaN y = False"
| "flt x NaN = False"
| "flt x NInf = False"
| "flt NInf y = True"
| "flt PInf y = False"
| "flt (Fin x) PInf = True"
| "flt (Fin x) (Fin y) = (x < y)"

definition fgt :: "pyfloat \<Rightarrow> pyfloat \<Rightarrow> bool" where
  "fgt x y = flt y x"

definition feq :: "pyfloat \<Rightarrow> pyfloat \<Rightarrow> bool" where
  "feq x y = (x \<noteq> NaN \<and> x = y)"

definition fle :: "pyfloat \<Rightarrow> pyfloat \<Rightarrow> bool" where
  "fle x y = (flt x y \<or> feq x y)"

text \<open>The one exception the constructor can raise: numpy refuses a negative dimension.\<close>

datatype error = ValueError

text \<open>
  The fields of the object, in the order of \<open>__init__\<close>. Three components are not
  fields of the class: \<open>rng\<close> is the stream of numpy's global generator (the n-th
  value it returns, each in [0, 1)), \<open>rng_pos\<close> the number of values drawn so far,
  and \<open>obj_calls\<close> the arguments \<open>obj_func\<close> has been called with, in call order.
\<close>

record gwo =
  obj_func :: "real list \<Rightarrow> pyfloat"
  lb :: real
  ub :: real
  dim :: int
  pop_size :: int
  max_iter :: int
  positions :: "real list list"
  alpha_pos :: "real list"
  alpha_score :: pyfloat
  beta_pos :: "real list"
  beta_score :: pyfloat
  delta_pos :: "real list"
  delta_score :: pyfloat
  convergence_curve :: "pyfloat list"
  rng :: "nat \<Rightarrow> real"
  rng_pos :: nat
  obj_calls :: "real list list"

text \<open>
  \<open>np.random.uniform(low, high, (n, d))\<close>: an n by d array filled in row-major
  order, each entry \<open>low + (high - low) * u\<close> for the next value u of the generator.
\<close>

definition uniform :: "(nat \<Rightarrow> real) \<Rightarrow> real \<Rightarrow> real \<Rightarrow> nat \<Rightarrow> nat \<Rightarrow> real list list" where
  "uniform g low high n d =
     map (\<lambda>i. map (\<lambda>j. low + (high - low) * g (i * d + j)) [0..<d]) [0..<n]"

definition zeros :: "nat \<Rightarrow> real list" where
  "zeros d = replicate d 0"

text \<open>
  \<open>GWO.__init__\<close>. It checks none of its arguments. The only failure is numpy's, on a
  negative shape in \<open>np.random.uniform\<close> (line 28), before anything else is built.
\<close>

definition GWO_init ::
  "(real list \<Rightarrow> pyfloat) \<Rightarrow> real \<Rightarrow> real \<Rightarrow> int \<Rightarrow> int \<Rightarrow> int \<Rightarrow> (nat \<Rightarrow> real) \<Rightarrow> error + gwo" where
  "GWO_init f lower_bound upper_bound d wolf_count m g =
     (if wolf_count < 0 \<or> d < 0 then Inl ValueError
      else Inr \<lparr>obj_func = f, lb = lower_bound, ub = upper_bound, dim = d,
                pop_size = wolf_count, max_iter = m,
                positions = uniform g lower_bound upper_bound (nat wolf_count) (nat d),
                alpha_pos = zeros (nat d), alpha_score = PInf,
                beta_pos = zeros (nat d), beta_score = PInf,
                delta_pos = zeros (nat d), delta_score = PInf,
                convergence_curve = [],
                rng = g, rng_pos = nat wolf_count * nat d,
                obj_calls = []\<rparr>)"

text \<open>\<open>np.clip(x, lo, hi)\<close> is \<open>minimum(maximum(x, lo), hi)\<close>, with no check that lo < hi.\<close>

definition clip :: "real \<Rightarrow> real \<Rightarrow> real \<Rightarrow> real" where
  "clip x lo hi = min (max x lo) hi"

text \<open>
  The body of the evaluation loop (lines 56 to 78) for wolf i: clip the row in place,
  evaluate it, update the leaders. The leaders' positions are copies, so they do not
  alias the population.
\<close>

definition rank_one :: "nat \<Rightarrow> gwo \<Rightarrow> gwo" where
  "rank_one i s =
     (let row = map (\<lambda>x. clip x (lb s) (ub s)) (positions s ! i);
          s1 = s\<lparr>positions := (positions s)[i := row], obj_calls := obj_calls s @ [row]\<rparr>;
          fitness = obj_func s row
      in if flt fitness (alpha_score s1) then
           s1\<lparr>delta_score := beta_score s1, delta_pos := beta_pos s1,
              beta_score := alpha_score s1, beta_pos := alpha_pos s1,
              alpha_score := fitness, alpha_pos := row\<rparr>
         else if fgt fitness (alpha_score s1) \<and> flt fitness (beta_score s1) then
           s1\<lparr>delta_score := beta_score s1, delta_pos := beta_pos s1,
              beta_score := fitness, beta_pos := row\<rparr>
         else if fgt fitness (alpha_score s1) \<and> fgt fitness (beta_score s1)
                 \<and> flt fitness (delta_score s1) then
           s1\<lparr>delta_score := fitness, delta_pos := row\<rparr>
         else s1)"

definition rank_pass :: "gwo \<Rightarrow> gwo" where
  "rank_pass s = fold rank_one [0..<nat (pop_size s)] s"

text \<open>Line 82: \<open>a = 2 - t * (2 / self.max_iter)\<close>, with Python's true division.\<close>

definition decay_a :: "nat \<Rightarrow> int \<Rightarrow> real" where
  "decay_a t m = 2 - real t * (2 / real_of_int m)"

text \<open>
  The body of the inner update loop (lines 91 to 112) for wolf i, dimension j. Each call
  of \<open>np.random.random()\<close> takes the next value of the generator.
\<close>

definition update_coord :: "real \<Rightarrow> nat \<Rightarrow> nat \<Rightarrow> gwo \<Rightarrow> gwo" where
  "update_coord a i j s =
     (let p = rng_pos s;
          r1 = rng s p; r2 = rng s (p + 1);
          A1 = 2 * a * r1 - a;
          C1 = 2 * r2;
          D_alpha = \<bar>C1 * (alpha_pos s ! j) - positions s ! i ! j\<bar>;
          X1 = alpha_pos s ! j - A1 * D_alpha;
          r1 = rng s (p + 2); r2 = rng s (p + 3);
          A2 = 2 * a * r1 - a;
          C2 = 2 * r2;
          D_beta = \<bar>C2 * (beta_pos s ! j) - positions s ! i ! j\<bar>;
          X2 = beta_pos s ! j - A2 * D_beta;
          r1 = rng s (p + 4); r2 = rng s (p + 5);
          A3 = 2 * a * r1 - a;
          C3 = 2 * r2;
          D_delta = \<bar>C3 * (delta_pos s ! j) - positions s ! i ! j\<bar>;
          X3 = delta_pos s ! j - A3 * D_delta
      in s\<lparr>positions := (positions s)[i := (positions s ! i)[j := (X1 + X2 + X3) / 3]],
           rng_pos := p + 6\<rparr>)"

definition update_wolf :: "real \<Rightarrow> nat \<Rightarrow> gwo \<Rightarrow> gwo" where
  "update_wolf a i s = fold (update_coord a i) [0..<nat (dim s)] s"

definition update_positions :: "real \<Rightarrow> gwo \<Rightarrow> gwo" where
  "update_positions a s = fold (update_wolf a) [0..<nat (pop_size s)] s"

text \<open>One pass of the main loop (lines 50 to 115); the console output is left out.\<close>

definition iteration :: "nat \<Rightarrow> gwo \<Rightarrow> gwo" where
  "iteration t s =
     (let s1 = rank_pass s;
          a = decay_a t (max_iter s1);
          s2 = update_positions a s1
      in s2\<lparr>convergence_curve := convergence_curve s2 @ [alpha_score s2]\<rparr>)"

text \<open>The state after the first n passes of the main loop.\<close>

definition run_iters :: "nat \<Rightarrow> gwo \<Rightarrow> gwo" where
  "run_iters n s = fold iteration [0..<n] s"

text \<open>
  \<open>GWO.optimize\<close>: \<open>max_iter\<close> passes of the main loop (none when \<open>max_iter\<close> is not
  positive). The method returns the field \<open>convergence_curve\<close> of the object; the model
  returns the object, of which the curve is a component. The array indices of the loops
  are in range in every state that the constructor builds and the loops reach (the
  predicate \<open>shaped\<close> below), so no access fails.
\<close>

definition optimize :: "gwo \<Rightarrow> gwo" where
  "optimize s = run_iters (nat (max_iter s)) s"

text \<open>\<open>sphere_function\<close>: the sum of the squares.\<close>

definition sphere_function :: "real list \<Rightarrow> pyfloat" where
  "sphere_function x = Fin (sum_list (map (\<lambda>v. v ^ 2) x))"

section \<open>The update rule in the specification's words\<close>

text \<open>
  The specification's formula for the pull of one leader coordinate l on a coordinate x,
  with the pair r1, r2 drawn for that leader: A = 2 a r1 - a, C = 2 r2, D = |C l - x|,
  X = l - A D.
\<close>

definition spec_X :: "real \<Rightarrow> real \<Rightarrow> real \<Rightarrow> real \<Rightarrow> real \<Rightarrow> real" where
  "spec_X a r1 r2 l x = l - (2 * a * r1 - a) * \<bar>2 * r2 * l - x\<bar>"

text \<open>
  The specification's new coordinate: the mean of the three pulls, where the Alpha pair
  is the generator's values k and k + 1, the Beta pair k + 2 and k + 3, the Delta pair
  k + 4 and k + 5.
\<close>

definition spec_coord ::
  "real \<Rightarrow> (nat \<Rightarrow> real) \<Rightarrow> nat \<Rightarrow> real \<Rightarrow> real \<Rightarrow> real \<Rightarrow> real \<Rightarrow> real" where
  "spec_coord a g k l_alpha l_beta l_delta x =
     (spec_X a (g k) (g (k + 1)) l_alpha x
      + spec_X a (g (k + 2)) (g (k + 3)) l_beta x
      + spec_X a (g (k + 4)) (g (k + 5)) l_delta x) / 3"

section \<open>Predicates on states\<close>

text \<open>The shapes of the arrays agree with \<open>pop_size\<close> and \<open>dim\<close>: every index the
  loops use is in range.\<close>

definition shaped :: "gwo \<Rightarrow> bool" where
  "shaped s =
     (length (positions s) = nat (pop_size s)
      \<and> list_all (\<lambda>row. length row = nat (dim s)) (positions s)
      \<and> length (alpha_pos s) = nat (dim s)
      \<and> length (beta_pos s) = nat (dim s)
      \<and> length (delta_pos s) = nat (dim s))"

text \<open>The leaders' scores are in ascending order.\<close>

definition ordered :: "gwo \<Rightarrow> bool" where
  "ordered s = (fle (alpha_score s) (beta_score s) \<and> fle (beta_score s) (delta_score s))"

text \<open>A row lies in the box.\<close>

definition in_box :: "real \<Rightarrow> real \<Rightarrow> real list \<Rightarrow> bool" where
  "in_box lo hi row = list_all (\<lambda>x. lo \<le> x \<and> x \<le> hi) row"

text \<open>
  The leaders during a run whose objective always returns c, with z the zero vector:
  Beta and Delta are as the constructor left them, and Alpha either is too or has
  score c.
\<close>

definition tied :: "pyfloat \<Rightarrow> real list \<Rightarrow> gwo \<Rightarrow> bool" where
  "tied c z s =
     (beta_score s = PInf \<and> beta_pos s = z \<and> delta_score s = PInf \<and> delta_pos s = z
      \<and> ((alpha_score s = PInf \<and> alpha_pos s = z) \<or> alpha_score s = c))"

text \<open>The optimizer of the main program (lines 142 to 149), on a given generator.\<close>

definition main_optimizer :: "(nat \<Rightarrow> real) \<Rightarrow> error + gwo" where
  "main_optimizer g = GWO_init sphere_function (-10) 10 2 10 50 g"

section \<open>Auxiliary facts\<close>

lemma flt_irrefl: "\<not> flt x x"
  by (cases x) simp_all

lemma flt_trans: "flt x y \<Longrightarrow> flt y z \<Longrightarrow> flt x z"
  by (cases x; cases y; cases z) simp_all

lemma flt_asym: "flt x y \<Longrightarrow> \<not> flt y x"
  by (cases x; cases y) simp_all

lemma flt_not_NaN: "flt x y \<Longrightarrow> x \<noteq> NaN \<and> y \<noteq> NaN"
  by (cases x; cases y) simp_all

lemma fle_trans: "fle x y \<Longrightarrow> fle y z \<Longrightarrow> fle x z"
  unfolding fle_def feq_def using flt_trans by blast

lemma fle_not_flt: "fle x y \<Longrightarrow> \<not> flt y x"
  unfolding fle_def feq_def using flt_asym flt_irrefl by blast

lemma fle_refl: "x \<noteq> NaN \<Longrightarrow> fle x x"
  by (simp add: fle_def feq_def)

lemma fold_inv: "(\<And>x s. P s \<Longrightarrow> P (f x s)) \<Longrightarrow> P s \<Longrightarrow> P (fold f xs s)"
  by (induction xs arbitrary: s) simp_all

lemma rank_one_frame:
  "obj_func (rank_one i s) = obj_func s" "lb (rank_one i s) = lb s" "ub (rank_one i s) = ub s"
  "dim (rank_one i s) = dim s" "pop_size (rank_one i s) = pop_size s"
  "max_iter (rank_one i s) = max_iter s"
  "convergence_curve (rank_one i s) = convergence_curve s"
  "rng (rank_one i s) = rng s" "rng_pos (rank_one i s) = rng_pos s"
  "positions (rank_one i s) = (positions s)[i := map (\<lambda>x. clip x (lb s) (ub s)) (positions s ! i)]"
  "obj_calls (rank_one i s) = obj_calls s @ [map (\<lambda>x. clip x (lb s) (ub s)) (positions s ! i)]"
  by (simp_all add: rank_one_def Let_def)

lemma rank_one_ordered: "ordered s \<Longrightarrow> ordered (rank_one i s)"
  by (auto simp add: rank_one_def Let_def ordered_def fle_def fgt_def)


lemma update_coord_eq:
  "update_coord a i j s =
     s\<lparr>positions := (positions s)[i := (positions s ! i)[j :=
            spec_coord a (rng s) (rng_pos s) (alpha_pos s ! j) (beta_pos s ! j)
              (delta_pos s ! j) (positions s ! i ! j)]],
       rng_pos := rng_pos s + 6\<rparr>"
  by (simp add: update_coord_def spec_coord_def spec_X_def Let_def)

lemma map_upt_update:
  "(map f [0..<L])[n := v] = map (\<lambda>i. if i = n then v else f i) [0..<L]"
  by (rule nth_equalityI) (auto simp: nth_list_update)

lemma update_coord_fold:
  assumes "i < length (positions s)" "n \<le> length (positions s ! i)"
  shows "fold (update_coord a i) [0..<n] s =
     s\<lparr>positions := (positions s)[i := map (\<lambda>j. if j < n then
            spec_coord a (rng s) (rng_pos s + 6 * j) (alpha_pos s ! j) (beta_pos s ! j)
              (delta_pos s ! j) (positions s ! i ! j) else positions s ! i ! j)
            [0..<length (positions s ! i)]],
       rng_pos := rng_pos s + 6 * n\<rparr>"
  using assms
proof (induction n)
  case 0
  then show ?case by (simp add: map_nth)
next
  case (Suc n)
  then have n: "n < length (positions s ! i)" by simp
  from Suc have IH: "fold (update_coord a i) [0..<n] s =
     s\<lparr>positions := (positions s)[i := map (\<lambda>j. if j < n then
            spec_coord a (rng s) (rng_pos s + 6 * j) (alpha_pos s ! j) (beta_pos s ! j)
              (delta_pos s ! j) (positions s ! i ! j) else positions s ! i ! j)
            [0..<length (positions s ! i)]],
       rng_pos := rng_pos s + 6 * n\<rparr>" by simp
  have step: "fold (update_coord a i) [0..<Suc n] s
      = update_coord a i n (fold (update_coord a i) [0..<n] s)"
    by simp
  let ?C = "\<lambda>j. spec_coord a (rng s) (rng_pos s + 6 * j) (alpha_pos s ! j) (beta_pos s ! j)
              (delta_pos s ! j) (positions s ! i ! j)"
  have fn: "(\<lambda>ia. if ia = n then ?C n else if ia < n then ?C ia else positions s ! i ! ia)
          = (\<lambda>j. if j < Suc n then ?C j else positions s ! i ! j)"
    by (rule ext) (simp add: less_Suc_eq)
  show ?case
    using Suc.prems n
    apply (simp only: step IH)
    apply (simp add: update_coord_eq map_upt_update fn)
    done
qed


lemma map_upt_if_below:
  "map (\<lambda>j. if j < d then f j else g j) [0..<d] = map f [0..<d]"
  by simp

lemma update_wolf_eq:
  assumes "i < length (positions s)" "length (positions s ! i) = nat (dim s)"
  shows "update_wolf a i s =
     s\<lparr>positions := (positions s)[i := map (\<lambda>j.
            spec_coord a (rng s) (rng_pos s + 6 * j) (alpha_pos s ! j) (beta_pos s ! j)
              (delta_pos s ! j) (positions s ! i ! j)) [0..<nat (dim s)]],
       rng_pos := rng_pos s + 6 * nat (dim s)\<rparr>"
proof -
  have "nat (dim s) \<le> length (positions s ! i)" using assms by simp
  from update_coord_fold [OF assms(1) this, of a] show ?thesis
    unfolding update_wolf_def using assms(2) by (simp add: map_upt_if_below)
qed

lemma update_positions_fold:
  assumes "n \<le> length (positions s)"
    and "list_all (\<lambda>row. length row = nat (dim s)) (positions s)"
  shows "fold (update_wolf a) [0..<n] s =
     s\<lparr>positions := map (\<lambda>i. if i < n then map (\<lambda>j.
            spec_coord a (rng s) (rng_pos s + 6 * (i * nat (dim s) + j))
              (alpha_pos s ! j) (beta_pos s ! j) (delta_pos s ! j) (positions s ! i ! j))
            [0..<nat (dim s)] else positions s ! i) [0..<length (positions s)],
       rng_pos := rng_pos s + 6 * (n * nat (dim s))\<rparr>"
  using assms(1)
proof (induction n)
  case 0
  then show ?case by (simp add: map_nth)
next
  case (Suc n)
  then have n: "n < length (positions s)" by simp
  from assms(2) n have len: "length (positions s ! n) = nat (dim s)"
    by (simp add: list_all_length)
  let ?R = "\<lambda>i. map (\<lambda>j.
            spec_coord a (rng s) (rng_pos s + 6 * (i * nat (dim s) + j))
              (alpha_pos s ! j) (beta_pos s ! j) (delta_pos s ! j) (positions s ! i ! j))
            [0..<nat (dim s)]"
  from Suc n have IH: "fold (update_wolf a) [0..<n] s =
     s\<lparr>positions := map (\<lambda>i. if i < n then ?R i else positions s ! i)
            [0..<length (positions s)],
       rng_pos := rng_pos s + 6 * (n * nat (dim s))\<rparr>" by simp
  let ?s = "s\<lparr>positions := map (\<lambda>i. if i < n then ?R i else positions s ! i)
            [0..<length (positions s)],
       rng_pos := rng_pos s + 6 * (n * nat (dim s))\<rparr>"
  have step: "fold (update_wolf a) [0..<Suc n] s
      = update_wolf a n (fold (update_wolf a) [0..<n] s)"
    by simp
  have a1: "n < length (positions ?s)" using n by simp
  have a2: "length (positions ?s ! n) = nat (dim ?s)" using n len by simp
  have fn: "(\<lambda>i. if i = n then ?R n else if i < n then ?R i else positions s ! i)
          = (\<lambda>i. if i < Suc n then ?R i else positions s ! i)"
    by (rule ext) (simp add: less_Suc_eq)
  have ar: "rng_pos s + 6 * (n * nat (dim s)) + 6 * j = rng_pos s + 6 * (n * nat (dim s) + j)" for j
    by simp
  show ?case
    apply (simp only: step IH)
    apply (subst update_wolf_eq [OF a1 a2])
    using n apply (simp add: map_upt_update ar fn)
    done
qed


lemma update_positions_eq:
  assumes "shaped s"
  shows "update_positions a s =
     s\<lparr>positions := map (\<lambda>i. map (\<lambda>j.
            spec_coord a (rng s) (rng_pos s + 6 * (i * nat (dim s) + j))
              (alpha_pos s ! j) (beta_pos s ! j) (delta_pos s ! j) (positions s ! i ! j))
            [0..<nat (dim s)]) [0..<nat (pop_size s)],
       rng_pos := rng_pos s + 6 * (nat (pop_size s) * nat (dim s))\<rparr>"
proof -
  from assms have len: "length (positions s) = nat (pop_size s)"
    and rows: "list_all (\<lambda>row. length row = nat (dim s)) (positions s)"
    by (simp_all add: shaped_def)
  have "nat (pop_size s) \<le> length (positions s)" using len by simp
  from update_positions_fold [OF this rows, of a] show ?thesis
    unfolding update_positions_def using len by (simp add: map_upt_if_below)
qed

lemma shaped_init:
  "GWO_init f lo hi d n m g = Inr s \<Longrightarrow> shaped s"
  by (auto simp: GWO_init_def shaped_def uniform_def zeros_def list_all_length
      split: if_splits)

lemma list_all_update:
  "list_all P xs \<Longrightarrow> P v \<Longrightarrow> list_all P (xs[i := v])"
  by (induction xs arbitrary: i) (auto split: nat.splits)

lemma shaped_rank_one:
  assumes "shaped s" "i < nat (pop_size s)"
  shows "shaped (rank_one i s)"
proof -
  from assms have r: "length (positions s ! i) = nat (dim s)"
    by (simp add: shaped_def list_all_length)
  with assms(1) show ?thesis
    by (auto simp: rank_one_def Let_def shaped_def intro!: list_all_update)
qed


lemma fold_frame: "(\<And>x s. g (f x s) = g s) \<Longrightarrow> g (fold f xs s) = g s"
  by (induction xs arbitrary: s) simp_all

lemma fold_upt_inv:
  "(\<And>i s. i < n \<Longrightarrow> P s \<Longrightarrow> P (f i s)) \<Longrightarrow> P s \<Longrightarrow> P (fold f [0..<n] s)"
  by (induction n) simp_all

lemma rank_fold_frame:
  "obj_func (fold rank_one xs s) = obj_func s" "lb (fold rank_one xs s) = lb s"
  "ub (fold rank_one xs s) = ub s" "dim (fold rank_one xs s) = dim s"
  "pop_size (fold rank_one xs s) = pop_size s" "max_iter (fold rank_one xs s) = max_iter s"
  "convergence_curve (fold rank_one xs s) = convergence_curve s"
  "rng (fold rank_one xs s) = rng s" "rng_pos (fold rank_one xs s) = rng_pos s"
  by (rule fold_frame, simp add: rank_one_frame)+

lemma rank_pass_frame:
  "obj_func (rank_pass s) = obj_func s" "lb (rank_pass s) = lb s"
  "ub (rank_pass s) = ub s" "dim (rank_pass s) = dim s"
  "pop_size (rank_pass s) = pop_size s" "max_iter (rank_pass s) = max_iter s"
  "convergence_curve (rank_pass s) = convergence_curve s"
  "rng (rank_pass s) = rng s" "rng_pos (rank_pass s) = rng_pos s"
  by (simp_all add: rank_pass_def rank_fold_frame)

lemma shaped_rank_fold:
  assumes "shaped s" "k \<le> nat (pop_size s)"
  shows "shaped (fold rank_one [0..<k] s)"
proof -
  have "shaped (fold rank_one [0..<k] s) \<and> pop_size (fold rank_one [0..<k] s) = pop_size s"
  proof (rule fold_upt_inv [where P = "\<lambda>u. shaped u \<and> pop_size u = pop_size s"])
    fix i u assume "i < k" "shaped u \<and> pop_size u = pop_size s"
    with assms(2) show "shaped (rank_one i u) \<and> pop_size (rank_one i u) = pop_size s"
      by (simp add: shaped_rank_one rank_one_frame)
  next
    show "shaped s \<and> pop_size s = pop_size s" using assms(1) by simp
  qed
  then show ?thesis by simp
qed

lemma shaped_rank_pass: "shaped s \<Longrightarrow> shaped (rank_pass s)"
  by (simp add: rank_pass_def shaped_rank_fold)

lemma update_positions_frame:
  assumes "shaped s"
  shows "obj_func (update_positions a s) = obj_func s" "lb (update_positions a s) = lb s"
    "ub (update_positions a s) = ub s" "dim (update_positions a s) = dim s"
    "pop_size (update_positions a s) = pop_size s"
    "max_iter (update_positions a s) = max_iter s"
    "convergence_curve (update_positions a s) = convergence_curve s"
    "rng (update_positions a s) = rng s"
    "alpha_pos (update_positions a s) = alpha_pos s"
    "alpha_score (update_positions a s) = alpha_score s"
    "beta_pos (update_positions a s) = beta_pos s"
    "beta_score (update_positions a s) = beta_score s"
    "delta_pos (update_positions a s) = delta_pos s"
    "delta_score (update_positions a s) = delta_score s"
    "obj_calls (update_positions a s) = obj_calls s"
    "rng_pos (update_positions a s) = rng_pos s + 6 * (nat (pop_size s) * nat (dim s))"
  by (simp_all add: update_positions_eq [OF assms])

lemma shaped_update_positions:
  assumes "shaped s" shows "shaped (update_positions a s)"
  using assms unfolding update_positions_eq [OF assms]
  by (simp add: shaped_def list_all_length)

lemma iteration_frame:
  assumes "shaped s"
  shows "obj_func (iteration t s) = obj_func s" "lb (iteration t s) = lb s"
    "ub (iteration t s) = ub s" "dim (iteration t s) = dim s"
    "pop_size (iteration t s) = pop_size s"
    "max_iter (iteration t s) = max_iter s"
    "rng (iteration t s) = rng s"
    "alpha_pos (iteration t s) = alpha_pos (rank_pass s)"
    "alpha_score (iteration t s) = alpha_score (rank_pass s)"
    "beta_pos (iteration t s) = beta_pos (rank_pass s)"
    "beta_score (iteration t s) = beta_score (rank_pass s)"
    "delta_pos (iteration t s) = delta_pos (rank_pass s)"
    "delta_score (iteration t s) = delta_score (rank_pass s)"
    "obj_calls (iteration t s) = obj_calls (rank_pass s)"
    "convergence_curve (iteration t s) = convergence_curve s @ [alpha_score (rank_pass s)]"
    "positions (iteration t s) =
       positions (update_positions (decay_a t (max_iter s)) (rank_pass s))"
  using shaped_rank_pass [OF assms]
  by (simp_all add: iteration_def Let_def update_positions_frame rank_pass_frame)

lemma shaped_iteration:
  assumes "shaped s" shows "shaped (iteration t s)"
  using shaped_update_positions [OF shaped_rank_pass [OF assms]]
  by (simp add: iteration_def Let_def shaped_def)

lemma run_iters_Suc: "run_iters (Suc n) s = iteration n (run_iters n s)"
  by (simp add: run_iters_def)

lemma run_iters_0: "run_iters 0 s = s"
  by (simp add: run_iters_def)

lemma shaped_run_iters: "shaped s \<Longrightarrow> shaped (run_iters n s)"
  by (induction n) (simp_all add: run_iters_0 run_iters_Suc shaped_iteration)

lemma run_iters_frame:
  assumes "shaped s"
  shows "obj_func (run_iters n s) = obj_func s" "lb (run_iters n s) = lb s"
    "ub (run_iters n s) = ub s" "dim (run_iters n s) = dim s"
    "pop_size (run_iters n s) = pop_size s"
    "max_iter (run_iters n s) = max_iter s"
    "rng (run_iters n s) = rng s"
  by (induction n,
      simp_all add: run_iters_0 run_iters_Suc iteration_frame shaped_run_iters [OF assms])


lemma ordered_init: "GWO_init f lo hi d n m g = Inr s \<Longrightarrow> ordered s"
  by (auto simp: GWO_init_def ordered_def fle_def feq_def split: if_splits)

lemma ordered_rank_fold: "ordered s \<Longrightarrow> ordered (fold rank_one xs s)"
  by (rule fold_inv) (rule rank_one_ordered)

lemma ordered_iteration: "shaped s \<Longrightarrow> ordered s \<Longrightarrow> ordered (iteration t s)"
  using ordered_rank_fold [of s "[0..<nat (pop_size s)]"]
  by (simp add: ordered_def iteration_frame rank_pass_def)

lemma ordered_run_iters: "shaped s \<Longrightarrow> ordered s \<Longrightarrow> ordered (run_iters t s)"
  by (induction t) (simp_all add: run_iters_0 run_iters_Suc ordered_iteration shaped_run_iters)

lemma rank_one_alpha:
  "alpha_score s \<noteq> NaN \<Longrightarrow>
     alpha_score (rank_one i s) \<noteq> NaN \<and> fle (alpha_score (rank_one i s)) (alpha_score s)"
  by (auto simp: rank_one_def Let_def fle_def feq_def dest: flt_not_NaN)

lemma rank_fold_alpha:
  "alpha_score s \<noteq> NaN \<Longrightarrow>
     alpha_score (fold rank_one xs s) \<noteq> NaN \<and> fle (alpha_score (fold rank_one xs s)) (alpha_score s)"
proof (induction xs arbitrary: s)
  case Nil
  then show ?case by (simp add: fle_refl)
next
  case (Cons x xs)
  from rank_one_alpha [OF Cons.prems, of x]
  have 1: "alpha_score (rank_one x s) \<noteq> NaN"
    and 2: "fle (alpha_score (rank_one x s)) (alpha_score s)" by simp_all
  from Cons.IH [OF 1] 2 show ?case
    by (auto intro: fle_trans)
qed

lemma curve_run_iters:
  assumes "shaped s"
  shows "convergence_curve (run_iters n s) =
     convergence_curve s @ map (\<lambda>k. alpha_score (run_iters (Suc k) s)) [0..<n]"
proof (induction n)
  case 0
  show ?case by (simp add: run_iters_0)
next
  case (Suc n)
  have sh: "shaped (run_iters n s)" using assms by (rule shaped_run_iters)
  have "convergence_curve (run_iters (Suc n) s)
      = convergence_curve (run_iters n s) @ [alpha_score (run_iters (Suc n) s)]"
    by (simp add: run_iters_Suc iteration_frame [OF sh])
  with Suc show ?case by simp
qed

lemma alpha_run_iters:
  assumes "shaped s" "alpha_score s \<noteq> NaN"
  shows "alpha_score (run_iters n s) \<noteq> NaN"
    and "fle (alpha_score (run_iters (Suc n) s)) (alpha_score (run_iters n s))"
proof -
  show nn: "alpha_score (run_iters n s) \<noteq> NaN" for n
  proof (induction n)
    case 0
    show ?case using assms(2) by (simp add: run_iters_0)
  next
    case (Suc n)
    have sh: "shaped (run_iters n s)" using assms(1) by (rule shaped_run_iters)
    show ?case
      using rank_fold_alpha [OF Suc, of "[0..<nat (pop_size (run_iters n s))]"]
      by (simp add: run_iters_Suc iteration_frame [OF sh] rank_pass_def)
  qed
  have sh: "shaped (run_iters n s)" using assms(1) by (rule shaped_run_iters)
  show "fle (alpha_score (run_iters (Suc n) s)) (alpha_score (run_iters n s))"
    using rank_fold_alpha [OF nn [of n], of "[0..<nat (pop_size (run_iters n s))]"]
    by (simp add: run_iters_Suc iteration_frame [OF sh] rank_pass_def)
qed


lemma curve_length:
  assumes "GWO_init f lo hi d n m g = Inr s0"
  shows "length (convergence_curve (optimize s0)) = nat m"
proof -
  have "convergence_curve s0 = []" "max_iter s0 = m"
    using assms by (auto simp: GWO_init_def split: if_splits)
  then show ?thesis
    by (simp add: optimize_def curve_run_iters [OF shaped_init [OF assms]])
qed

lemma clip_in_range: "lo \<le> hi \<Longrightarrow> lo \<le> clip x lo hi \<and> clip x lo hi \<le> hi"
  by (simp add: clip_def)

lemma in_box_clip: "lo \<le> hi \<Longrightarrow> in_box lo hi (map (\<lambda>x. clip x lo hi) row)"
  by (simp add: in_box_def list_all_iff clip_in_range)

lemma rank_fold_positions:
  assumes "shaped s" "k \<le> nat (pop_size s)" "lb s \<le> ub s"
  shows "list_all (in_box (lb s) (ub s)) (take k (positions (fold rank_one [0..<k] s)))
       \<and> obj_calls (fold rank_one [0..<k] s)
           = obj_calls s @ take k (positions (fold rank_one [0..<k] s))"
  using assms(2)
proof (induction k)
  case 0
  show ?case by simp
next
  case (Suc k)
  let ?u = "fold rank_one [0..<k] s"
  let ?row = "map (\<lambda>x. clip x (lb s) (ub s)) (positions ?u ! k)"
  from Suc.prems have k: "k \<le> nat (pop_size s)" by simp
  have "shaped ?u" using assms(1) k by (rule shaped_rank_fold)
  then have len: "k < length (positions ?u)"
    using Suc.prems by (simp add: shaped_def rank_fold_frame)
  have pos: "positions (fold rank_one [0..<Suc k] s) = (positions ?u)[k := ?row]"
    by (simp add: rank_one_frame rank_fold_frame)
  have calls: "obj_calls (fold rank_one [0..<Suc k] s) = obj_calls ?u @ [?row]"
    by (simp add: rank_one_frame rank_fold_frame)
  have tk: "take (Suc k) ((positions ?u)[k := ?row]) = take k (positions ?u) @ [?row]"
    using len by (simp add: take_Suc_conv_app_nth)
  from Suc.IH [OF k] show ?case
    unfolding pos calls tk using assms(3) by (simp add: in_box_clip)
qed

lemma rank_pass_positions:
  assumes "shaped s" "lb s \<le> ub s"
  shows "list_all (in_box (lb s) (ub s)) (positions (rank_pass s))"
    and "obj_calls (rank_pass s) = obj_calls s @ positions (rank_pass s)"
proof -
  have "length (positions (rank_pass s)) = nat (pop_size s)"
    using shaped_rank_pass [OF assms(1)] by (simp add: shaped_def rank_pass_frame)
  with rank_fold_positions [OF assms(1) _ assms(2), of "nat (pop_size s)"]
  show "list_all (in_box (lb s) (ub s)) (positions (rank_pass s))"
    and "obj_calls (rank_pass s) = obj_calls s @ positions (rank_pass s)"
    by (simp_all add: rank_pass_def)
qed

lemma calls_run_iters:
  assumes "shaped s" "lb s \<le> ub s" "list_all (in_box (lb s) (ub s)) (obj_calls s)"
  shows "list_all (in_box (lb s) (ub s)) (obj_calls (run_iters n s))"
proof (induction n)
  case 0
  show ?case using assms(3) by (simp add: run_iters_0)
next
  case (Suc n)
  let ?u = "run_iters n s"
  have sh: "shaped ?u" using assms(1) by (rule shaped_run_iters)
  have b: "lb ?u = lb s" "ub ?u = ub s" by (simp_all add: run_iters_frame [OF assms(1)])
  from rank_pass_positions [OF sh] assms(2) b Suc show ?case
    by (simp add: run_iters_Suc iteration_frame [OF sh])
qed

lemma rank_one_tie:
  assumes "ordered s"
    and "feq (obj_func s (map (\<lambda>x. clip x (lb s) (ub s)) (positions s ! i))) (alpha_score s)
       \<or> feq (obj_func s (map (\<lambda>x. clip x (lb s) (ub s)) (positions s ! i))) (beta_score s)"
  shows "rank_one i s =
     s\<lparr>positions := (positions s)[i := map (\<lambda>x. clip x (lb s) (ub s)) (positions s ! i)],
       obj_calls := obj_calls s @ [map (\<lambda>x. clip x (lb s) (ub s)) (positions s ! i)]\<rparr>"
proof -
  let ?f = "obj_func s (map (\<lambda>x. clip x (lb s) (ub s)) (positions s ! i))"
  from assms(1) have ab: "\<not> flt (beta_score s) (alpha_score s)"
    by (simp add: ordered_def fle_not_flt)
  from assms(2) have 1: "\<not> flt ?f (alpha_score s)"
    using ab by (auto simp: feq_def flt_irrefl)
  from assms(2) have 2: "\<not> (fgt ?f (alpha_score s) \<and> flt ?f (beta_score s))"
    by (auto simp: feq_def fgt_def flt_irrefl)
  from assms(2) have 3: "\<not> (fgt ?f (alpha_score s) \<and> fgt ?f (beta_score s)
      \<and> flt ?f (delta_score s))"
    by (auto simp: feq_def fgt_def flt_irrefl)
  show ?thesis
    unfolding rank_one_def Let_def by (simp add: 1 2 3)
qed

lemma update_positions_nth:
  assumes "shaped s" "i < nat (pop_size s)" "j < nat (dim s)"
  shows "positions (update_positions a s) ! i ! j =
     spec_coord a (rng s) (rng_pos s + 6 * (i * nat (dim s) + j))
       (alpha_pos s ! j) (beta_pos s ! j) (delta_pos s ! j) (positions s ! i ! j)"
  using assms(2,3) by (simp add: update_positions_eq [OF assms(1)])

lemma rng_pos_iteration:
  assumes "shaped s"
  shows "rng_pos (iteration t s) = rng_pos s + 6 * (nat (pop_size s) * nat (dim s))"
  using shaped_rank_pass [OF assms]
  by (simp add: iteration_def Let_def update_positions_frame rank_pass_frame)

lemma rng_pos_run_iters:
  assumes "shaped s"
  shows "rng_pos (run_iters t s) = rng_pos s + 6 * (t * (nat (pop_size s) * nat (dim s)))"
proof (induction t)
  case 0
  show ?case by (simp add: run_iters_0)
next
  case (Suc t)
  have sh: "shaped (run_iters t s)" using assms by (rule shaped_run_iters)
  show ?case
    by (simp add: run_iters_Suc rng_pos_iteration [OF sh] Suc run_iters_frame [OF assms]
        algebra_simps)
qed

lemma tied_init: "GWO_init f lo hi d n m g = Inr s \<Longrightarrow> tied c (zeros (nat d)) s"
  by (auto simp: GWO_init_def tied_def split: if_splits)

lemma tied_rank_one:
  "obj_func s = (\<lambda>x. c) \<Longrightarrow> tied c z s \<Longrightarrow> tied c z (rank_one i s)"
  by (auto simp: rank_one_def Let_def tied_def fgt_def flt_irrefl)

lemma tied_rank_fold:
  assumes "obj_func s = (\<lambda>x. c)" "tied c z s"
  shows "tied c z (fold rank_one xs s)"
proof -
  have "tied c z (fold rank_one xs s) \<and> obj_func (fold rank_one xs s) = (\<lambda>x. c)"
    by (rule fold_inv [where P = "\<lambda>u. tied c z u \<and> obj_func u = (\<lambda>x. c)"])
       (simp_all add: assms tied_rank_one rank_one_frame)
  then show ?thesis by simp
qed

lemma tied_run_iters:
  assumes "shaped s" "obj_func s = (\<lambda>x. c)" "tied c z s"
  shows "tied c z (run_iters t s)"
proof (induction t)
  case 0
  show ?case using assms(3) by (simp add: run_iters_0)
next
  case (Suc t)
  let ?u = "run_iters t s"
  have sh: "shaped ?u" using assms(1) by (rule shaped_run_iters)
  have "obj_func ?u = (\<lambda>x. c)" by (simp add: run_iters_frame [OF assms(1)] assms(2))
  from tied_rank_fold [OF this Suc, of "[0..<nat (pop_size ?u)]"] show ?case
    by (simp add: run_iters_Suc tied_def iteration_frame [OF sh] rank_pass_def)
qed


lemma alpha_tied_rank_one:
  "obj_func s = (\<lambda>x. Fin v) \<Longrightarrow> tied (Fin v) z s \<Longrightarrow> alpha_score (rank_one i s) = Fin v"
  by (auto simp: rank_one_def Let_def tied_def fgt_def)

lemma alpha_tied_rank_fold:
  assumes "obj_func s = (\<lambda>x. Fin v)" "tied (Fin v) z s" "alpha_score s = Fin v"
  shows "alpha_score (fold rank_one xs s) = Fin v"
proof -
  have "tied (Fin v) z (fold rank_one xs s) \<and> obj_func (fold rank_one xs s) = (\<lambda>x. Fin v)
      \<and> alpha_score (fold rank_one xs s) = Fin v"
    by (rule fold_inv [where P = "\<lambda>u. tied (Fin v) z u \<and> obj_func u = (\<lambda>x. Fin v)
          \<and> alpha_score u = Fin v"])
       (simp_all add: assms tied_rank_one alpha_tied_rank_one [where z = z] rank_one_frame)
  then show ?thesis by simp
qed

lemma alpha_tied_rank_pass:
  assumes "obj_func s = (\<lambda>x. Fin v)" "tied (Fin v) z s" "0 < pop_size s"
  shows "alpha_score (rank_pass s) = Fin v"
proof -
  from assms(3) have "[0..<nat (pop_size s)] = 0 # [1..<nat (pop_size s)]"
    by (simp add: upt_conv_Cons)
  then have "rank_pass s = fold rank_one [1..<nat (pop_size s)] (rank_one 0 s)"
    by (simp add: rank_pass_def)
  moreover have "alpha_score (fold rank_one [1..<nat (pop_size s)] (rank_one 0 s)) = Fin v"
    by (rule alpha_tied_rank_fold [where z = z])
       (simp_all add: assms rank_one_frame tied_rank_one alpha_tied_rank_one [where z = z])
  ultimately show ?thesis by simp
qed


section \<open>Construction\<close>

text \<open>
  C1 (as stated, refuted): construction fails whenever lower_bound >= upper_bound,
  dim < 1, wolf_count < 3 or max_iter < 1. Here all four are violated at once and the
  constructor returns an object.
\<close>

theorem GWO_init_invalid_config_accepted:
  "GWO_init sphere_function 1 0 0 2 0 (\<lambda>n. 0) =
     Inr \<lparr>obj_func = sphere_function, lb = 1, ub = 0, dim = 0, pop_size = 2, max_iter = 0,
          positions = [[], []], alpha_pos = [], alpha_score = PInf,
          beta_pos = [], beta_score = PInf, delta_pos = [], delta_score = PInf,
          convergence_curve = [], rng = (\<lambda>n. 0), rng_pos = 0, obj_calls = []\<rparr>"
  by (simp add: GWO_init_def uniform_def zeros_def upt_rec)

text \<open>
  C1 (amended): the constructor validates nothing. It fails exactly when dim or
  wolf_count is negative, with numpy's ValueError, at construction time; for every
  other input, whatever the bounds and max_iter, it returns an object that stores the
  arguments as given, with the three leaders at (zero vector, +infinity) and an empty
  convergence curve.
\<close>

theorem GWO_init_no_validation:
  "(GWO_init f lo hi d n m g = Inl ValueError) = (n < 0 \<or> d < 0)
   \<and> (0 \<le> n \<and> 0 \<le> d \<longrightarrow>
        (\<exists>s. GWO_init f lo hi d n m g = Inr s
           \<and> obj_func s = f \<and> lb s = lo \<and> ub s = hi \<and> dim s = d \<and> pop_size s = n
           \<and> max_iter s = m
           \<and> alpha_pos s = zeros (nat d) \<and> alpha_score s = PInf
           \<and> beta_pos s = zeros (nat d) \<and> beta_score s = PInf
           \<and> delta_pos s = zeros (nat d) \<and> delta_score s = PInf
           \<and> convergence_curve s = [] \<and> shaped s))"
  by (simp add: GWO_init_def shaped_def uniform_def zeros_def list_all_length)

theorem GWO_init_no_validation_witness:
  "\<exists>s. GWO_init sphere_function 1 0 0 2 0 (\<lambda>n. 0) = Inr s
       \<and> lb s = 1 \<and> ub s = 0 \<and> dim s = 0 \<and> pop_size s = 2 \<and> max_iter s = 0"
  using GWO_init_no_validation [of sphere_function 1 0 0 2 0 "\<lambda>n. 0"] by auto

section \<open>The decay coefficient\<close>

text \<open>
  C5 (as stated, refuted): on the last iteration, t = max_iter - 1, the coefficient
  goes slightly negative. With max_iter = 4 and t = 3 it is 1/2.
\<close>

theorem decay_a_last_not_negative:
  "decay_a 3 4 = 1 / 2 \<and> \<not> decay_a 3 4 < 0"
  by (simp add: decay_a_def)

text \<open>
  C5 (amended): at every iteration t (0-based) of a run of max_iter iterations the
  coefficient is a = 2 - t * (2 / max_iter); it is 2 at t = 0, drops by 2 / max_iter
  with each iteration, and stays strictly positive: on the last iteration,
  t = max_iter - 1, it is 2 / max_iter, and it is never below that.
\<close>

theorem decay_a_linear_positive:
  assumes "t < nat m"
  shows "decay_a t m = 2 - real t * (2 / real_of_int m)
       \<and> decay_a 0 m = 2
       \<and> decay_a (Suc t) m = decay_a t m - 2 / real_of_int m
       \<and> decay_a (nat m - 1) m = 2 / real_of_int m
       \<and> 2 / real_of_int m \<le> decay_a t m
       \<and> 0 < decay_a t m"
proof -
  from assms have m: "0 < m" by simp
  then have rm: "0 < real_of_int m" by simp
  have t: "real t + 1 \<le> real_of_int m"
    using assms by linarith
  have last: "real (nat m - 1) = real_of_int m - 1"
    using m by simp
  have step: "decay_a (Suc t) m = decay_a t m - 2 / real_of_int m"
    by (simp add: decay_a_def algebra_simps add_divide_distrib)
  have e: "decay_a t m = 2 * (real_of_int m - real t) / real_of_int m"
    using rm by (simp add: decay_a_def field_simps)
  have lastv: "decay_a (nat m - 1) m = 2 / real_of_int m"
    using rm by (simp add: decay_a_def last field_simps)
  have low: "2 / real_of_int m \<le> decay_a t m"
    unfolding e using rm t by (simp add: divide_le_cancel)
  have "0 < 2 / real_of_int m" using rm by simp
  with low have pos: "0 < decay_a t m" by linarith
  show ?thesis
    using step lastv low pos by (simp add: decay_a_def)
qed

theorem decay_a_linear_positive_witness:
  "decay_a 49 50 = 1 / 25 \<and> 0 < decay_a 49 50"
  using decay_a_linear_positive [of 49 50] by (simp add: decay_a_def)

section \<open>The leaders after the ranking pass\<close>

text \<open>
  C2: for every configuration the constructor accepts and every iteration t, after the
  ranking pass of iteration t the leaders' scores satisfy
  alpha_score <= beta_score <= delta_score.
\<close>

theorem leaders_ordered_after_ranking:
  assumes "GWO_init f lo hi d n m g = Inr s0"
  shows "fle (alpha_score (rank_pass (run_iters t s0))) (beta_score (rank_pass (run_iters t s0)))
       \<and> fle (beta_score (rank_pass (run_iters t s0))) (delta_score (rank_pass (run_iters t s0)))"
proof -
  have "ordered (run_iters t s0)"
    using assms by (simp add: ordered_run_iters shaped_init ordered_init)
  then have "ordered (rank_pass (run_iters t s0))"
    unfolding rank_pass_def by (rule ordered_rank_fold)
  then show ?thesis by (simp add: ordered_def)
qed

theorem leaders_ordered_after_ranking_witness:
  "\<exists>s0. main_optimizer (\<lambda>n. 0) = Inr s0
     \<and> fle (alpha_score (rank_pass (run_iters 7 s0))) (beta_score (rank_pass (run_iters 7 s0)))
     \<and> fle (beta_score (rank_pass (run_iters 7 s0))) (delta_score (rank_pass (run_iters 7 s0)))"
proof -
  obtain s0 where h: "GWO_init sphere_function (-10) 10 2 10 50 (\<lambda>n. 0) = Inr s0"
    by (simp add: GWO_init_def)
  from leaders_ordered_after_ranking [OF h, of 7] h show ?thesis
    by (auto simp: main_optimizer_def)
qed

section \<open>The convergence curve\<close>

text \<open>
  C3: the convergence curve that \<open>optimize\<close> returns is non-increasing: each entry
  is less than or equal to the one before it.
\<close>

theorem convergence_curve_non_increasing:
  assumes "GWO_init f lo hi d n m g = Inr s0" 
    and "Suc i < length (convergence_curve (optimize s0))"
  shows "fle (convergence_curve (optimize s0) ! Suc i) (convergence_curve (optimize s0) ! i)"
proof -
  have sh: "shaped s0" using assms(1) by (rule shaped_init)
  have c0: "convergence_curve s0 = []" and a0: "alpha_score s0 \<noteq> NaN"
    using assms(1) by (auto simp: GWO_init_def split: if_splits)
  have c: "convergence_curve (optimize s0)
      = map (\<lambda>k. alpha_score (run_iters (Suc k) s0)) [0..<nat (max_iter s0)]"
    by (simp add: optimize_def curve_run_iters [OF sh] c0)
  from assms(2) have i: "Suc i < nat (max_iter s0)" by (simp add: c)
  then show ?thesis
    using alpha_run_iters(2) [OF sh a0, of "Suc i"] by (simp add: c)
qed

theorem convergence_curve_non_increasing_witness:
  "\<exists>s0. main_optimizer (\<lambda>n. 0) = Inr s0
     \<and> 49 < length (convergence_curve (optimize s0))
     \<and> fle (convergence_curve (optimize s0) ! 49) (convergence_curve (optimize s0) ! 48)"
proof -
  obtain s0 where h: "GWO_init sphere_function (-10) 10 2 10 50 (\<lambda>n. 0) = Inr s0"
    by (simp add: GWO_init_def)
  have l: "Suc 48 < length (convergence_curve (optimize s0))"
    using curve_length [OF h] by simp
  from convergence_curve_non_increasing [OF h l] l h show ?thesis
    by (auto simp: main_optimizer_def)
qed

text \<open>
  C6: after the run the convergence curve has exactly max_iter entries (none when
  max_iter is not positive); the curve after k iterations is the first k entries of the
  final curve, and each iteration appends one entry, the alpha score at its end.
\<close>

theorem convergence_curve_length_append_only:
  assumes "GWO_init f lo hi d n m g = Inr s0"
  shows "length (convergence_curve (optimize s0)) = nat m
       \<and> (\<forall>k\<le>nat m. convergence_curve (run_iters k s0) = take k (convergence_curve (optimize s0)))
       \<and> (\<forall>k<nat m. convergence_curve (run_iters (Suc k) s0)
              = convergence_curve (run_iters k s0) @ [alpha_score (run_iters (Suc k) s0)])"
proof -
  have sh: "shaped s0" using assms(1) by (rule shaped_init)
  have c0: "convergence_curve s0 = []" and m: "max_iter s0 = m"
    using assms(1) by (auto simp: GWO_init_def split: if_splits)
  have c: "convergence_curve (run_iters k s0)
      = map (\<lambda>k. alpha_score (run_iters (Suc k) s0)) [0..<k]" for k
    by (simp add: curve_run_iters [OF sh] c0)
  have "take k (map (\<lambda>k. alpha_score (run_iters (Suc k) s0)) [0..<nat m])
      = map (\<lambda>k. alpha_score (run_iters (Suc k) s0)) [0..<k]" if "k \<le> nat m" for k
    using that by (simp add: take_map min_def)
  then show ?thesis
    by (simp add: optimize_def m c)
qed

theorem convergence_curve_length_append_only_witness:
  "\<exists>s0. main_optimizer (\<lambda>n. 0) = Inr s0
     \<and> length (convergence_curve (optimize s0)) = 50
     \<and> convergence_curve (run_iters 20 s0) = take 20 (convergence_curve (optimize s0))"
proof -
  obtain s0 where h: "GWO_init sphere_function (-10) 10 2 10 50 (\<lambda>n. 0) = Inr s0"
    by (simp add: GWO_init_def)
  from convergence_curve_length_append_only [OF h] h show ?thesis
    by (auto simp: main_optimizer_def)
qed

section \<open>Clipping before evaluation\<close>

text \<open>
  C7: with lower <= upper, in every iteration t every coordinate of every candidate
  lies within [lower, upper] after the clip step; the objective is called, during the
  ranking pass, on exactly these clipped rows, one call per candidate; and every
  argument the objective receives during the whole run lies in the box.
\<close>

theorem objective_only_sees_clipped_candidates:
  assumes "GWO_init f lo hi d n m g = Inr s0" and "lo \<le> hi"
  shows "list_all (in_box lo hi) (positions (rank_pass (run_iters t s0)))
       \<and> obj_calls (rank_pass (run_iters t s0))
           = obj_calls (run_iters t s0) @ positions (rank_pass (run_iters t s0))
       \<and> length (positions (rank_pass (run_iters t s0))) = nat n
       \<and> list_all (in_box lo hi) (obj_calls (optimize s0))"
proof -
  have sh: "shaped s0" using assms(1) by (rule shaped_init)
  have i: "lb s0 = lo" "ub s0 = hi" "obj_calls s0 = []" "pop_size s0 = n"
    using assms(1) by (auto simp: GWO_init_def split: if_splits)
  let ?u = "run_iters t s0"
  have shu: "shaped ?u" using sh by (rule shaped_run_iters)
  have b: "lb ?u = lo" "ub ?u = hi" "pop_size ?u = n" by (simp_all add: run_iters_frame [OF sh] i)
  have l: "length (positions (rank_pass ?u)) = nat n"
    using shaped_rank_pass [OF shu] by (simp add: shaped_def rank_pass_frame b)
  from rank_pass_positions [OF shu] calls_run_iters [OF sh, of "nat (max_iter s0)"] l
  show ?thesis
    using assms(2) by (simp add: b i optimize_def)
qed

theorem objective_only_sees_clipped_candidates_witness:
  "\<exists>s0. main_optimizer (\<lambda>n. 0) = Inr s0
     \<and> list_all (in_box (-10) 10) (positions (rank_pass (run_iters 3 s0)))
     \<and> length (positions (rank_pass (run_iters 3 s0))) = 10
     \<and> list_all (in_box (-10) 10) (obj_calls (optimize s0))"
proof -
  obtain s0 where h: "GWO_init sphere_function (-10) 10 2 10 50 (\<lambda>n. 0) = Inr s0"
    by (simp add: GWO_init_def)
  have b: "(-10::real) \<le> 10" by simp
  from objective_only_sees_clipped_candidates [OF h b, of 3] h show ?thesis
    by (auto simp: main_optimizer_def)
qed

section \<open>Ties in the ranking step\<close>

text \<open>
  C8: during the ranking step of any iteration t, when the candidate i being ranked has
  a fitness equal to alpha_score or equal to beta_score, the step changes none of the
  three leaders' positions and scores.
\<close>

theorem tie_with_alpha_or_beta_no_update:
  assumes "GWO_init f lo hi d n m g = Inr s0"
    and "s = fold rank_one [0..<i] (run_iters t s0)"
    and "fitness = obj_func s (map (\<lambda>x. clip x (lb s) (ub s)) (positions s ! i))"
    and "feq fitness (alpha_score s) \<or> feq fitness (beta_score s)"
  shows "alpha_pos (rank_one i s) = alpha_pos s \<and> alpha_score (rank_one i s) = alpha_score s
       \<and> beta_pos (rank_one i s) = beta_pos s \<and> beta_score (rank_one i s) = beta_score s
       \<and> delta_pos (rank_one i s) = delta_pos s \<and> delta_score (rank_one i s) = delta_score s"
proof -
  have "ordered (run_iters t s0)"
    using assms(1) by (simp add: ordered_run_iters shaped_init ordered_init)
  then have "ordered s"
    unfolding assms(2) by (rule ordered_rank_fold)
  from rank_one_tie [OF this, of i] assms(3,4) show ?thesis
    by simp
qed

theorem tie_with_alpha_or_beta_no_update_witness:
  "\<exists>s0. GWO_init (\<lambda>x. Fin 5) (-10) 10 2 10 50 (\<lambda>n. 0) = Inr s0
     \<and> feq (Fin 5) (alpha_score (rank_one 0 s0))
     \<and> alpha_pos (rank_one 1 (rank_one 0 s0)) = alpha_pos (rank_one 0 s0)
     \<and> alpha_score (rank_one 1 (rank_one 0 s0)) = Fin 5
     \<and> beta_score (rank_one 1 (rank_one 0 s0)) = beta_score (rank_one 0 s0)
     \<and> delta_score (rank_one 1 (rank_one 0 s0)) = delta_score (rank_one 0 s0)"
proof -
  obtain s0 where h: "GWO_init (\<lambda>x. Fin 5) (-10) 10 2 10 50 (\<lambda>n. 0) = Inr s0"
    by (simp add: GWO_init_def)
  let ?s = "rank_one 0 s0"
  have o: "obj_func s0 = (\<lambda>x. Fin 5)"
    using h by (auto simp: GWO_init_def)
  have s: "?s = fold rank_one [0..<1] (run_iters 0 s0)"
    by (simp add: run_iters_0)
  have a: "alpha_score ?s = Fin 5"
    using o tied_init [OF h] by (rule alpha_tied_rank_one)
  have f: "Fin 5 = obj_func ?s (map (\<lambda>x. clip x (lb ?s) (ub ?s)) (positions ?s ! 1))"
    by (simp add: rank_one_frame o)
  have t: "feq (Fin 5) (alpha_score ?s) \<or> feq (Fin 5) (beta_score ?s)"
    by (simp add: a feq_def)
  from tie_with_alpha_or_beta_no_update [OF h s f t] h a show ?thesis
    by (auto simp: feq_def)
qed

section \<open>The position update\<close>

text \<open>
  C4: after iteration t, coordinate j of candidate i is the mean
  (X_Alpha + X_Beta + X_Delta) / 3 of the three pulls of the specification, computed
  from the leaders as the ranking pass of that iteration left them and from the
  candidate's clipped coordinate, with a = 2 - t * (2 / max_iter). The new value
  replaces the old coordinate. The pairs r1, r2 are consecutive values of the
  generator, the Alpha pair first, then the Beta pair, then the Delta pair, six values
  per coordinate, candidates in order and dimensions in order within a candidate, after
  the values the constructor and the earlier iterations have drawn; they lie in [0, 1)
  as the values of the generator do.
\<close>

theorem position_update_rule:
  assumes "GWO_init f lo hi d n m g = Inr s0" and "i < nat n" and "j < nat d"
    and "\<forall>k. 0 \<le> g k \<and> g k < 1"
  shows "positions (run_iters (Suc t) s0) ! i ! j =
     spec_coord (decay_a t m) g (nat n * nat d + 6 * (t * (nat n * nat d)) + 6 * (i * nat d + j))
       (alpha_pos (rank_pass (run_iters t s0)) ! j)
       (beta_pos (rank_pass (run_iters t s0)) ! j)
       (delta_pos (rank_pass (run_iters t s0)) ! j)
       (positions (rank_pass (run_iters t s0)) ! i ! j)
     \<and> (\<forall>q<6. 0 \<le> g (nat n * nat d + 6 * (t * (nat n * nat d)) + 6 * (i * nat d + j) + q)
              \<and> g (nat n * nat d + 6 * (t * (nat n * nat d)) + 6 * (i * nat d + j) + q) < 1)"
proof -
  have sh: "shaped s0" using assms(1) by (rule shaped_init)
  have i0: "pop_size s0 = n" "dim s0 = d" "max_iter s0 = m" "rng s0 = g"
    "rng_pos s0 = nat n * nat d"
    using assms(1) by (auto simp: GWO_init_def split: if_splits)
  let ?u = "run_iters t s0"
  let ?s = "rank_pass ?u"
  have shu: "shaped ?u" using sh by (rule shaped_run_iters)
  have shs: "shaped ?s" using shu by (rule shaped_rank_pass)
  have fr: "pop_size ?s = n" "dim ?s = d" "max_iter ?u = m" "rng ?s = g"
    "rng_pos ?s = nat n * nat d + 6 * (t * (nat n * nat d))"
    by (simp_all add: rank_pass_frame run_iters_frame [OF sh] rng_pos_run_iters [OF sh] i0)
  have "positions (run_iters (Suc t) s0) = positions (update_positions (decay_a t m) ?s)"
    by (simp add: run_iters_Suc iteration_frame [OF shu] fr)
  moreover have "positions (update_positions (decay_a t m) ?s) ! i ! j =
     spec_coord (decay_a t m) (rng ?s) (rng_pos ?s + 6 * (i * nat (dim ?s) + j))
       (alpha_pos ?s ! j) (beta_pos ?s ! j) (delta_pos ?s ! j) (positions ?s ! i ! j)"
    using assms(2,3) by (intro update_positions_nth [OF shs]) (simp_all add: fr)
  ultimately show ?thesis using assms(4) by (simp add: fr)
qed

theorem position_update_rule_witness:
  "\<exists>s0. main_optimizer (\<lambda>n. 0) = Inr s0
     \<and> positions (run_iters (Suc 1) s0) ! 3 ! 1 =
         spec_coord (decay_a 1 50) (\<lambda>n. 0) 182
           (alpha_pos (rank_pass (run_iters 1 s0)) ! 1)
           (beta_pos (rank_pass (run_iters 1 s0)) ! 1)
           (delta_pos (rank_pass (run_iters 1 s0)) ! 1)
           (positions (rank_pass (run_iters 1 s0)) ! 3 ! 1)"
proof -
  obtain s0 where h: "GWO_init sphere_function (-10) 10 2 10 50 (\<lambda>n. 0) = Inr s0"
    by (simp add: GWO_init_def)
  have i: "3 < nat 10" and j: "1 < nat 2" by simp_all
  have r: "\<forall>k. 0 \<le> (\<lambda>n. 0::real) k \<and> (\<lambda>n. 0::real) k < 1" by simp
  from position_update_rule [OF h i j r, of 1] h show ?thesis
    by (auto simp: main_optimizer_def)
qed

section \<open>A constant objective\<close>

text \<open>
  C9: with the constant objective f(x) = 5 and at least one candidate, alpha_score is
  exactly 5.0 after the first iteration and after every later one, and every entry of
  the convergence curve is 5.0.
\<close>

theorem constant_objective_curve:
  assumes "GWO_init (\<lambda>x. Fin 5) lo hi d n m g = Inr s0" and "1 \<le> n"
  shows "alpha_score (run_iters (Suc k) s0) = Fin 5
       \<and> convergence_curve (optimize s0) = replicate (nat m) (Fin 5)"
proof -
  have sh: "shaped s0" using assms(1) by (rule shaped_init)
  have i0: "pop_size s0 = n" "obj_func s0 = (\<lambda>x. Fin 5)" "max_iter s0 = m"
    "convergence_curve s0 = []"
    using assms(1) by (auto simp: GWO_init_def split: if_splits)
  have a: "alpha_score (run_iters (Suc k) s0) = Fin 5" for k
  proof -
    let ?u = "run_iters k s0"
    have shu: "shaped ?u" using sh by (rule shaped_run_iters)
    have "tied (Fin 5) (zeros (nat d)) ?u"
      using sh i0(2) tied_init [OF assms(1)] by (rule tied_run_iters)
    moreover have "obj_func ?u = (\<lambda>x. Fin 5)" "0 < pop_size ?u"
      using assms(2) by (simp_all add: run_iters_frame [OF sh] i0)
    ultimately have "alpha_score (rank_pass ?u) = Fin 5"
      by (intro alpha_tied_rank_pass [where z = "zeros (nat d)"])
    then show ?thesis by (simp add: run_iters_Suc iteration_frame [OF shu])
  qed
  have "convergence_curve (optimize s0) = replicate (nat m) (Fin 5)"
    by (simp add: optimize_def curve_run_iters [OF sh] i0 a map_replicate_const)
  with a show ?thesis by simp
qed

theorem constant_objective_curve_witness:
  "\<exists>s0. GWO_init (\<lambda>x. Fin 5) (-10) 10 2 10 50 (\<lambda>n. 0) = Inr s0
     \<and> alpha_score (run_iters (Suc 0) s0) = Fin 5
     \<and> convergence_curve (optimize s0) = replicate 50 (Fin 5)"
proof -
  obtain s0 where h: "GWO_init (\<lambda>x. Fin 5) (-10) 10 2 10 50 (\<lambda>n. 0) = Inr s0"
    by (simp add: GWO_init_def)
  have n: "(1::int) \<le> 10" by simp
  from constant_objective_curve [OF h n, of 0] h show ?thesis
    by auto
qed

text \<open>
  C10: with an objective that returns the same value c at every point, beta_score and
  delta_score stay +infinity and beta_pos and delta_pos stay the zero vector throughout
  the run: at the start of every iteration, after every step of every ranking pass, and
  at the end. So the position update of every iteration computes the Beta and the
  Delta pull from the coordinate 0.
\<close>

theorem constant_objective_beta_delta_initial:
  assumes "GWO_init (\<lambda>x. c) lo hi d n m g = Inr s0" and "i < nat n" and "j < nat d"
  shows "beta_score (fold rank_one [0..<k] (run_iters t s0)) = PInf
       \<and> beta_pos (fold rank_one [0..<k] (run_iters t s0)) = zeros (nat d)
       \<and> delta_score (fold rank_one [0..<k] (run_iters t s0)) = PInf
       \<and> delta_pos (fold rank_one [0..<k] (run_iters t s0)) = zeros (nat d)
       \<and> beta_score (optimize s0) = PInf \<and> beta_pos (optimize s0) = zeros (nat d)
       \<and> delta_score (optimize s0) = PInf \<and> delta_pos (optimize s0) = zeros (nat d)
       \<and> positions (run_iters (Suc t) s0) ! i ! j =
           spec_coord (decay_a t m) g
             (nat n * nat d + 6 * (t * (nat n * nat d)) + 6 * (i * nat d + j))
             (alpha_pos (rank_pass (run_iters t s0)) ! j) 0 0
             (positions (rank_pass (run_iters t s0)) ! i ! j)"
proof -
  have sh: "shaped s0" using assms(1) by (rule shaped_init)
  have i0: "pop_size s0 = n" "dim s0 = d" "max_iter s0 = m" "rng s0 = g"
    "rng_pos s0 = nat n * nat d" "obj_func s0 = (\<lambda>x. c)"
    using assms(1) by (auto simp: GWO_init_def split: if_splits)
  have tr: "tied c (zeros (nat d)) (run_iters t s0)" for t
    using sh i0(6) tied_init [OF assms(1)] by (rule tied_run_iters)
  have ob: "obj_func (run_iters t s0) = (\<lambda>x. c)" for t
    by (simp add: run_iters_frame [OF sh] i0)
  have tf: "tied c (zeros (nat d)) (fold rank_one xs (run_iters t s0))" for xs t
    using ob tr by (rule tied_rank_fold)
  let ?u = "run_iters t s0"
  let ?s = "rank_pass ?u"
  have shu: "shaped ?u" using sh by (rule shaped_run_iters)
  have shs: "shaped ?s" using shu by (rule shaped_rank_pass)
  have fr: "pop_size ?s = n" "dim ?s = d" "max_iter ?u = m" "rng ?s = g"
    "rng_pos ?s = nat n * nat d + 6 * (t * (nat n * nat d))"
    by (simp_all add: rank_pass_frame run_iters_frame [OF sh] rng_pos_run_iters [OF sh] i0)
  have ts: "tied c (zeros (nat d)) ?s" unfolding rank_pass_def by (rule tf)
  have z: "beta_pos ?s ! j = 0" "delta_pos ?s ! j = 0"
    using ts assms(3) by (simp_all add: tied_def zeros_def)
  have "positions (run_iters (Suc t) s0) = positions (update_positions (decay_a t m) ?s)"
    by (simp add: run_iters_Suc iteration_frame [OF shu] fr)
  moreover have "positions (update_positions (decay_a t m) ?s) ! i ! j =
     spec_coord (decay_a t m) (rng ?s) (rng_pos ?s + 6 * (i * nat (dim ?s) + j))
       (alpha_pos ?s ! j) (beta_pos ?s ! j) (delta_pos ?s ! j) (positions ?s ! i ! j)"
    using assms(2,3) by (intro update_positions_nth [OF shs]) (simp_all add: fr)
  ultimately have p: "positions (run_iters (Suc t) s0) ! i ! j =
           spec_coord (decay_a t m) g
             (nat n * nat d + 6 * (t * (nat n * nat d)) + 6 * (i * nat d + j))
             (alpha_pos ?s ! j) 0 0 (positions ?s ! i ! j)"
    by (simp add: fr z)
  from tf [of "[0..<k]" t] tr [of "nat m"] p show ?thesis
    by (simp add: tied_def optimize_def i0)
qed

theorem constant_objective_beta_delta_initial_witness:
  "\<exists>s0. GWO_init (\<lambda>x. Fin 5) (-10) 10 2 10 50 (\<lambda>n. 0) = Inr s0
     \<and> beta_score (optimize s0) = PInf \<and> beta_pos (optimize s0) = zeros 2
     \<and> delta_score (optimize s0) = PInf \<and> delta_pos (optimize s0) = zeros 2
     \<and> beta_score (fold rank_one [0..<4] (run_iters 2 s0)) = PInf"
proof -
  obtain s0 where h: "GWO_init (\<lambda>x. Fin 5) (-10) 10 2 10 50 (\<lambda>n. 0) = Inr s0"
    by (simp add: GWO_init_def)
  have i: "3 < nat 10" and j: "1 < nat 2" by simp_all
  from constant_objective_beta_delta_initial [OF h i j, of 4 2] h show ?thesis
    by auto
qed

end
